theory Spec2Isabelle
  imports Complex_Main "HOL-Library.Word" "HOL-Library.AList"
begin

section \<open>JavaScript values used by the frontend\<close>

text \<open>
  A JavaScript string is a sequence of UTF-16 code units, so it is modelled as a list of
  16-bit words. \<open>ascii\<close> writes a source literal that only uses ASCII characters.
\<close>

type_synonym jstring = "16 word list"

definition ascii :: "string \<Rightarrow> jstring" where
  "ascii s = map (\<lambda>c. of_nat (of_char c)) s"

text \<open>\<open>Array.prototype.join\<close> on an array of strings.\<close>

fun join :: "jstring \<Rightarrow> jstring list \<Rightarrow> jstring" where
  "join sep [] = []"
| "join sep [x] = x"
| "join sep (x # y # ys) = x @ sep @ join sep (y # ys)"

section \<open>lib/colors: gradientForId\<close>

text \<open>
  \<open>Array.from(id)\<close> walks the string with the string iterator: a high surrogate
  directly followed by a low surrogate forms one element of two code units, every other
  code unit is an element of its own.
\<close>

definition is_high_surrogate :: "16 word \<Rightarrow> bool" where
  "is_high_surrogate u = (0xD800 \<le> u \<and> u \<le> 0xDBFF)"

definition is_low_surrogate :: "16 word \<Rightarrow> bool" where
  "is_low_surrogate u = (0xDC00 \<le> u \<and> u \<le> 0xDFFF)"

fun array_from :: "jstring \<Rightarrow> jstring list" where
  "array_from [] = []"
| "array_from [u] = [[u]]"
| "array_from (u # v # rest) =
     (if is_high_surrogate u \<and> is_low_surrogate v
      then [u, v] # array_from rest
      else [u] # array_from (v # rest))"

text \<open>
  Numbers that arise here are non-negative integers or \<open>NaN\<close>; \<open>None\<close> stands for
  \<open>NaN\<close>. \<open>charCodeAt\<close> answers \<open>NaN\<close> past the end of the string, \<open>+\<close> and \<open>%\<close>
  propagate it. A sum of \<open>k\<close> code units is at most \<open>65535 * k\<close>, far below \<open>2^53\<close> for
  every string an engine can hold, so the additions are exact and \<open>nat\<close> is faithful.
\<close>

type_synonym jnum = "nat option"

definition charCodeAt :: "jstring \<Rightarrow> nat \<Rightarrow> jnum" where
  "charCodeAt s i = (if i < length s then Some (unat (s ! i)) else None)"

definition num_add :: "jnum \<Rightarrow> jnum \<Rightarrow> jnum" where
  "num_add a b = (case a of None \<Rightarrow> None
                  | Some x \<Rightarrow> (case b of None \<Rightarrow> None | Some y \<Rightarrow> Some (x + y)))"

definition num_mod :: "jnum \<Rightarrow> nat \<Rightarrow> jnum" where
  "num_mod a m = (case a of None \<Rightarrow> None
                  | Some x \<Rightarrow> (if m = 0 then None else Some (x mod m)))"

text \<open>Reading \<open>palettes[k]\<close>: \<open>undefined\<close> (here \<open>None\<close>) unless \<open>k\<close> is an index.\<close>

definition array_get :: "'a list \<Rightarrow> jnum \<Rightarrow> 'a option" where
  "array_get xs k = (case k of None \<Rightarrow> None
                     | Some i \<Rightarrow> (if i < length xs then Some (xs ! i) else None))"

definition palettes :: "jstring list list" where
  "palettes =
    [[ascii ''from-indigo-500/30'', ascii ''via-sky-500/20'', ascii ''to-emerald-500/30''],
     [ascii ''from-fuchsia-500/25'', ascii ''via-rose-500/20'', ascii ''to-amber-500/25''],
     [ascii ''from-cyan-500/25'', ascii ''via-violet-500/20'', ascii ''to-lime-500/25''],
     [ascii ''from-amber-500/25'', ascii ''via-orange-500/20'', ascii ''to-pink-500/25''],
     [ascii ''from-slate-500/25'', ascii ''via-blue-500/20'', ascii ''to-teal-500/25'']]"

text \<open>An exception value: every throw site modelled here throws an \<open>Error\<close> object.\<close>

datatype thrown = Error jstring

definition codeSum :: "jstring \<Rightarrow> jnum" where
  "codeSum ident = foldl (\<lambda>acc ch. num_add acc (charCodeAt ch 0)) (Some 0) (array_from ident)"

text \<open>
  \<open>p.join\<close> on \<open>undefined\<close> is a \<open>TypeError\<close>; that is the only way the function can
  fail, and it is the branch taken by an index out of range.
\<close>

definition gradientForId :: "jstring \<Rightarrow> thrown + jstring" where
  "gradientForId ident =
     (let n = codeSum ident in
      case array_get palettes (num_mod n (length palettes)) of
        None \<Rightarrow> Inl (Error (ascii ''Cannot read properties of undefined''))
      | Some p \<Rightarrow> Inr (ascii ''bg-gradient-to-br '' @ join (ascii '' '') p))"

text \<open>The sum the claim speaks of: the first code unit of every element of \<open>Array.from\<close>.\<close>

definition firstUnits :: "jstring \<Rightarrow> nat list" where
  "firstUnits ident = map (\<lambda>ch. unat (hd ch)) (array_from ident)"

section \<open>components/pdf-viewer: page navigation\<close>

text \<open>
  The state of \<open>PdfViewer\<close> that page navigation reads and writes. \<open>numPages\<close> is the
  page count reported by the PDF library and \<open>page\<close> starts at 1 and moves by whole
  steps, so both are integers. The other state variables (\<open>scale\<close>, \<open>error\<close>) take no
  part in navigation.
\<close>

record pdf_state =
  numPages :: int
  page :: int
  loading :: bool

definition clampedPage :: "pdf_state \<Rightarrow> int" where
  "clampedPage s = (if numPages s \<le> 0 then 1 else max 1 (min (page s) (numPages s)))"

text \<open>The \<open>disabled\<close> attributes of the two buttons and their \<open>onClick\<close> updaters.\<close>

definition prev_disabled :: "pdf_state \<Rightarrow> bool" where
  "prev_disabled s = (clampedPage s \<le> 1 \<or> loading s)"

definition next_disabled :: "pdf_state \<Rightarrow> bool" where
  "next_disabled s = (numPages s \<le> 0 \<or> clampedPage s \<ge> numPages s \<or> loading s)"

definition on_prev :: "pdf_state \<Rightarrow> pdf_state" where
  "on_prev s = s\<lparr>page := max 1 (page s - 1)\<rparr>"

definition on_next :: "pdf_state \<Rightarrow> pdf_state" where
  "on_next s = s\<lparr>page := page s + 1\<rparr>"

text \<open>A click on a disabled button does nothing.\<close>

datatype nav_click = Prev | Next

fun click :: "pdf_state \<Rightarrow> nav_click \<Rightarrow> pdf_state" where
  "click s Prev = (if prev_disabled s then s else on_prev s)"
| "click s Next = (if next_disabled s then s else on_next s)"

definition clicks :: "pdf_state \<Rightarrow> nav_click list \<Rightarrow> pdf_state" where
  "clicks s cs = foldl click s cs"

text \<open>The page the render effect asks the document for: \<open>doc.getPage(clampedPage)\<close>.\<close>

definition requested_page :: "pdf_state \<Rightarrow> int" where
  "requested_page s = clampedPage s"

section \<open>app/page: recently opened workspaces\<close>

record RecentWorkspace =
  workspace_id :: jstring
  last_opened_at :: jstring

text \<open>
  What \<open>localStorage\<close> holds under the key \<open>recent_workspaces\<close>, by what \<open>loadRecent\<close>
  makes of it: no item, the empty string, text that \<open>JSON.parse\<close> rejects, JSON that is
  not an array, or an array. The array's elements have the type the source casts them
  to; the page itself only ever writes such arrays, and \<open>JSON.parse\<close> gives back the
  array that \<open>JSON.stringify\<close> wrote. The functions are modelled where a click handler
  runs them, in the browser; without a \<open>window\<close> \<open>loadRecent\<close> answers the empty list.
\<close>

datatype stored_recent =
  NoItem | EmptyText | BadJson | NonArray | ArrayOf "RecentWorkspace list"

fun loadRecent :: "stored_recent \<Rightarrow> RecentWorkspace list" where
  "loadRecent NoItem = []"
| "loadRecent EmptyText = []"
| "loadRecent BadJson = []"
| "loadRecent NonArray = []"
| "loadRecent (ArrayOf items) = items"

text \<open>\<open>saveRecent\<close> returns the new content of the item.\<close>

definition saveRecent :: "RecentWorkspace list \<Rightarrow> stored_recent" where
  "saveRecent items = ArrayOf (take 20 items)"

text \<open>\<open>now\<close> is the value of \<open>new Date().toISOString()\<close> at the call.\<close>

definition onOpenWorkspace :: "jstring \<Rightarrow> jstring \<Rightarrow> stored_recent \<Rightarrow> stored_recent" where
  "onOpenWorkspace workspaceId now st =
     (let current = loadRecent st;
          next = [\<lparr>workspace_id = workspaceId, last_opened_at = now\<rparr>]
                   @ filter (\<lambda>x. workspace_id x \<noteq> workspaceId) current
      in saveRecent next)"

section \<open>lib/api: the HTTP client\<close>

text \<open>
  JSON values. A number of JSON is a decimal fraction, hence a rational. An object keeps
  its members in order.
\<close>

datatype json =
  JNull | JBool bool | JNum rat | JStr jstring | JArr "json list" | JObj "(jstring \<times> json) list"

text \<open>
  A property declared \<open>p?: T | null\<close> is absent (\<open>undefined\<close>), \<open>null\<close> or a value.
  A property declared \<open>p?: T\<close> is an \<open>option\<close>, \<open>None\<close> standing for \<open>undefined\<close>.
\<close>

datatype 'a optional = Undefined | Null | Val 'a

text \<open>\<open>x ?? null\<close>.\<close>

fun or_null :: "'a optional \<Rightarrow> 'a optional" where
  "or_null Undefined = Null"
| "or_null Null = Null"
| "or_null (Val v) = Val v"

text \<open>\<open>String(s || "")\<close> on a string \<open>s\<close>.\<close>

definition or_empty :: "jstring \<Rightarrow> jstring" where
  "or_empty s = (if s = [] then [] else s)"

text \<open>A number in a template literal, for the natural numbers: its decimal digits.\<close>

fun decimal :: "nat \<Rightarrow> jstring" where
  "decimal n = (if n < 10 then [of_nat (48 + n)]
                else decimal (n div 10) @ [of_nat (48 + n mod 10)])"

datatype http_method = GET | POST | DELETE

record File =
  file_name :: jstring
  file_bytes :: "8 word list"

text \<open>
  A request body is JSON text, given by the value it is the serialisation of
  (\<open>JSON.stringify\<close>), or a \<open>FormData\<close> with its entries in the order of \<open>append\<close>.
\<close>

datatype body = JsonText json | FormData "(jstring \<times> File) list"

text \<open>The optional \<open>RequestInit\<close> argument of \<open>request\<close>, with the members the callers use.\<close>

record request_init =
  init_method :: "http_method option"
  init_headers :: "(jstring \<times> jstring) list option"
  init_body :: "body option"

text \<open>
  One call of \<open>fetch\<close>: the URL and the init object passed. \<open>request\<close> always passes a
  \<open>headers\<close> object. \<open>fetch\<close> sends a \<open>GET\<close> when the init names no method.
\<close>

record fetch_call =
  url :: jstring
  call_method :: "http_method option"
  call_headers :: "(jstring \<times> jstring) list"
  call_body :: "body option"

definition sent_method :: "fetch_call \<Rightarrow> http_method" where
  "sent_method c = (case call_method c of None \<Rightarrow> GET | Some m \<Rightarrow> m)"

text \<open>
  The parts of a \<open>Response\<close> that \<open>request\<close> reads. \<open>text()\<close> and \<open>json()\<close> are promises
  that may reject; \<open>json()\<close> resolves to a value that the source casts to the expected type
  \<open>'a\<close> without inspecting it.
\<close>

record 'a response =
  ok :: bool
  http_status :: nat
  statusText :: jstring
  resp_text :: "thrown + jstring"
  resp_json :: "thrown + 'a"

definition DEFAULT_BASE :: jstring where
  "DEFAULT_BASE = ascii ''http://localhost:8000''"

text \<open>\<open>env\<close> is \<open>process.env.NEXT_PUBLIC_API_BASE_URL\<close>; unset and empty are both falsy.\<close>

definition apiBaseUrl :: "jstring option \<Rightarrow> jstring" where
  "apiBaseUrl env = (case env of None \<Rightarrow> DEFAULT_BASE
                     | Some b \<Rightarrow> (if b = [] then DEFAULT_BASE else b))"

text \<open>
  \<open>request\<close> returns the calls of \<open>fetch\<close> it made together with its outcome: \<open>Inl\<close> a
  rejection, \<open>Inr\<close> the value it resolves to. \<open>fetch\<close> answers a call with a rejection
  (network failure) or a response.
\<close>

definition request ::
  "(fetch_call \<Rightarrow> thrown + 'a response) \<Rightarrow> jstring option \<Rightarrow> jstring \<Rightarrow>
   request_init option \<Rightarrow> fetch_call list \<times> (thrown + 'a)" where
  "request fetch env path init =
     (let c = \<lparr>url = apiBaseUrl env @ path,
               call_method = (case init of None \<Rightarrow> None | Some i \<Rightarrow> init_method i),
               call_headers = (case init of None \<Rightarrow> []
                               | Some i \<Rightarrow> (case init_headers i of None \<Rightarrow> [] | Some h \<Rightarrow> h)),
               call_body = (case init of None \<Rightarrow> None | Some i \<Rightarrow> init_body i)\<rparr>
      in ([c],
          case fetch c of
            Inl e \<Rightarrow> Inl e
          | Inr resp \<Rightarrow>
              if \<not> ok resp then
                (case resp_text resp of
                   Inl e \<Rightarrow> Inl e
                 | Inr t \<Rightarrow> Inl (Error (decimal (http_status resp) @ ascii '' '' @ statusText resp
                                          @ ascii '': '' @ t)))
              else resp_json resp))"

subsection \<open>uploadDocument\<close>

record upload_out =
  up_workspace_id :: jstring
  document_id :: jstring
  task_id :: jstring
  task_status :: jstring

definition uploadDocument ::
  "(fetch_call \<Rightarrow> thrown + upload_out response) \<Rightarrow> jstring option \<Rightarrow> jstring \<Rightarrow> File \<Rightarrow>
   fetch_call list \<times> (thrown + upload_out)" where
  "uploadDocument fetch env workspaceId f =
     (let form = [] @ [(ascii ''file'', f)]
      in request fetch env (ascii ''/workspaces/'' @ workspaceId @ ascii ''/documents/upload'')
           (Some \<lparr>init_method = Some POST, init_headers = None,
                  init_body = Some (FormData form)\<rparr>))"

subsection \<open>getTask\<close>

text \<open>The type \<open>Task\<close>; its members carry the prefix \<open>t_\<close> here.\<close>

record Task =
  t_id :: jstring
  t_workspace_id :: jstring
  t_document_id :: "jstring optional"
  t_type :: jstring
  t_status :: jstring
  t_stage :: "jstring optional"
  t_progress :: "rat optional"
  t_error :: "json option"
  t_result :: "json option"
  t_attempt :: rat
  t_max_attempts :: rat
  t_created_at :: jstring
  t_started_at :: "jstring optional"
  t_finished_at :: "jstring optional"
  t_updated_at :: jstring

definition getTask ::
  "(fetch_call \<Rightarrow> thrown + Task response) \<Rightarrow> jstring option \<Rightarrow> jstring \<Rightarrow>
   fetch_call list \<times> (thrown + Task)" where
  "getTask fetch env taskId = request fetch env (ascii ''/tasks/'' @ taskId) None"

subsection \<open>chat\<close>

record chat_payload =
  conversation_id :: "jstring optional"
  message :: jstring
  top_k :: "rat option"

text \<open>The declared result of \<open>chat\<close>; \<open>refs\<close> holds the citations of the answer.\<close>

record chat_out =
  out_conversation_id :: jstring
  answer :: jstring
  out_refs :: "json list"

text \<open>
  \<open>JSON.stringify(payload)\<close>, as the JSON value written: an \<open>undefined\<close> member is left
  out, \<open>null\<close> is written as \<open>null\<close>. The members come in the order in which the page
  writes them in the object literal, which is the order of the type.
\<close>

definition stringify_chat_payload :: "chat_payload \<Rightarrow> json" where
  "stringify_chat_payload p =
     JObj ((case conversation_id p of
              Undefined \<Rightarrow> []
            | Null \<Rightarrow> [(ascii ''conversation_id'', JNull)]
            | Val c \<Rightarrow> [(ascii ''conversation_id'', JStr c)])
           @ [(ascii ''message'', JStr (message p))]
           @ (case top_k p of None \<Rightarrow> [] | Some k \<Rightarrow> [(ascii ''top_k'', JNum k)]))"

definition chat ::
  "(fetch_call \<Rightarrow> thrown + chat_out response) \<Rightarrow> jstring option \<Rightarrow> jstring \<Rightarrow> chat_payload \<Rightarrow>
   fetch_call list \<times> (thrown + chat_out)" where
  "chat fetch env workspaceId payload =
     request fetch env (ascii ''/workspaces/'' @ workspaceId @ ascii ''/chat'')
       (Some \<lparr>init_method = Some POST,
              init_headers = Some [(ascii ''Content-Type'', ascii ''application/json'')],
              init_body = Some (JsonText (stringify_chat_payload payload))\<rparr>)"

subsection \<open>getDocumentTree\<close>

text \<open>
  Called by the page without options, so the query string is empty. The tree itself is
  only stored and rendered; its type is left open.
\<close>

definition getDocumentTree ::
  "(fetch_call \<Rightarrow> thrown + 't response) \<Rightarrow> jstring option \<Rightarrow> jstring \<Rightarrow>
   fetch_call list \<times> (thrown + 't)" where
  "getDocumentTree fetch env workspaceId =
     (let suffix = [] in
      request fetch env (ascii ''/workspaces/'' @ workspaceId @ ascii ''/documents/tree'' @ suffix)
        None)"

section \<open>app/w/[workspaceId]/page: the workspace page\<close>

text \<open>
  \<open>errToString\<close> answers the message of an \<open>Error\<close> object; what \<open>fetch\<close>, \<open>request\<close>
  and \<open>json()\<close> throw are such objects, so its other branches are not reached here.
\<close>

definition errToString :: "thrown \<Rightarrow> jstring" where
  "errToString e = (case e of Error m \<Rightarrow> m)"

definition conversationKey :: "jstring \<Rightarrow> jstring" where
  "conversationKey workspaceId = ascii ''current_conversation:'' @ workspaceId"

datatype role = User | Assistant

record chat_message =
  role :: role
  content :: jstring
  refs :: "json list option"

record task_entry =
  taskId :: jstring
  status :: jstring
  stage :: "jstring optional"
  progress :: "rat optional"
  error :: "json option"

text \<open>
  The state of \<open>WorkspaceDetailPage\<close> that the handlers below read and write, together
  with the browser's \<open>localStorage\<close>. An object used as a dictionary
  (\<open>activeIndexTasks\<close>) is an association list with one pair per key: a spread followed by
  an assignment is \<open>AList.update\<close> (the value changes in place, a new key goes last),
  \<open>delete\<close> is \<open>AList.delete\<close>, a read is \<open>map_of\<close>. The updater functions
  given to the state setters are applied in the order of the calls. \<open>localStorage\<close>
  stores what it is given. A handler is one step: no other handler runs between the
  parts before and after an \<open>await\<close>. The state variables left out (\<open>expanded\<close>,
  \<open>deleteMode\<close>, \<open>selectedDocIds\<close>, \<open>historyLoading\<close>, the preview) are not touched by the
  handlers modelled.
\<close>

record 't page_state =
  tree :: "'t option"
  docLoading :: bool
  docError :: "jstring option"
  uploading :: bool
  activeIndexTasks :: "(jstring \<times> task_entry) list"
  messages :: "chat_message list"
  input :: jstring
  sending :: bool
  sendStage :: "jstring option"
  conversationId :: "jstring option"
  historyNextBefore :: "jstring option"
  localStorage :: "jstring \<rightharpoonup> jstring"

text \<open>Every handler returns the calls of \<open>fetch\<close> it made and the state it leaves.\<close>

definition refreshTree ::
  "(fetch_call \<Rightarrow> thrown + 't response) \<Rightarrow> jstring option \<Rightarrow> jstring \<Rightarrow> 't page_state \<Rightarrow>
   fetch_call list \<times> 't page_state" where
  "refreshTree tfetch env workspaceId s =
     (let s1 = s\<lparr>docLoading := True, docError := None\<rparr>;
          (calls, fetched) = getDocumentTree tfetch env workspaceId;
          s2 = (case fetched of
                  Inr root' \<Rightarrow> s1\<lparr>tree := Some root'\<rparr>
                | Inl e \<Rightarrow> s1\<lparr>docError := Some (errToString e)\<rparr>)
      in (calls, s2\<lparr>docLoading := False\<rparr>))"

subsection \<open>Restoring and resetting the conversation\<close>



subsection \<open>Uploading one file\<close>

definition onUploadFile ::
  "(fetch_call \<Rightarrow> thrown + upload_out response) \<Rightarrow> (fetch_call \<Rightarrow> thrown + 't response) \<Rightarrow>
   jstring option \<Rightarrow> jstring \<Rightarrow> File \<Rightarrow> 't page_state \<Rightarrow> fetch_call list \<times> 't page_state" where
  "onUploadFile ufetch tfetch env workspaceId f s =
     (let s1 = s\<lparr>uploading := True\<rparr>;
          (calls, uploaded) = uploadDocument ufetch env workspaceId f
      in case uploaded of
           Inl e \<Rightarrow> (calls, s1\<lparr>uploading := False\<rparr>)
         | Inr res \<Rightarrow>
             (let s2 = s1\<lparr>activeIndexTasks :=
                          AList.update (document_id res)
                            \<lparr>taskId = task_id res, status = task_status res,
                             stage = Null, progress = Null, error = None\<rparr>
                            (activeIndexTasks s1)\<rparr>;
                  (calls2, s3) = refreshTree tfetch env workspaceId s2
              in (calls @ calls2, s3\<lparr>uploading := False\<rparr>)))"

subsection \<open>Polling the indexing tasks\<close>

definition is_terminal :: "jstring \<Rightarrow> bool" where
  "is_terminal st = (st = ascii ''succeeded'' \<or> st = ascii ''failed'' \<or> st = ascii ''canceled'')"

text \<open>One request per entry; a failed request gives \<open>latest: null\<close>.\<close>

definition poll_one ::
  "(fetch_call \<Rightarrow> thrown + Task response) \<Rightarrow> jstring option \<Rightarrow> jstring \<times> task_entry \<Rightarrow>
   jstring \<times> Task option" where
  "poll_one fetch env e =
     (case e of (docId, t) \<Rightarrow>
        (docId, case snd (getTask fetch env (taskId t)) of
                  Inl err \<Rightarrow> None
                | Inr latest \<Rightarrow> Some latest))"

definition entry_of :: "Task \<Rightarrow> task_entry" where
  "entry_of latest =
     \<lparr>taskId = t_id latest, status = or_empty (t_status latest),
      stage = or_null (t_stage latest), progress = or_null (t_progress latest),
      error = t_error latest\<rparr>"

text \<open>
  The loop of the state updater over \<open>updates\<close>, on the copy \<open>next\<close> of the previous
  dictionary and the flag \<open>shouldRefreshDocs\<close>.
\<close>

fun apply_updates ::
  "(jstring \<times> Task option) list \<Rightarrow> (jstring \<times> task_entry) list \<Rightarrow> bool \<Rightarrow>
   (jstring \<times> task_entry) list \<times> bool" where
  "apply_updates [] next shouldRefreshDocs = (next, shouldRefreshDocs)"
| "apply_updates ((docId, None) # us) next shouldRefreshDocs =
     apply_updates us next shouldRefreshDocs"
| "apply_updates ((docId, Some latest) # us) next shouldRefreshDocs =
     (let next1 = AList.update docId (entry_of latest) next in
      if is_terminal (or_empty (t_status latest))
      then apply_updates us (AList.delete docId next1) True
      else apply_updates us next1 shouldRefreshDocs)"

text \<open>
  The timer callback. \<open>entries\<close> is \<open>Object.entries\<close> of the dictionary the effect was set
  up with, \<open>s\<close> the state the updater is applied to.

  The callback declares \<open>shouldRefreshDocs = false\<close>, passes the updater to
  \<open>setActiveIndexTasks\<close> and reads \<open>shouldRefreshDocs\<close> in the statement that follows; the
  only assignment to the variable is inside the updater. React puts an updater function in
  a queue and calls it when it next renders the component, which is after the callback has
  read the variable; it calls the updater inside the setter only when the component has
  no update left to process. \<open>eager\<close> is true in that second case. The value read is
  therefore the flag computed by the updater when \<open>eager\<close> holds, and the initial \<open>false\<close>
  otherwise.
\<close>

definition poll_tick ::
  "bool \<Rightarrow> (fetch_call \<Rightarrow> thrown + Task response) \<Rightarrow> (fetch_call \<Rightarrow> thrown + 't response) \<Rightarrow>
   jstring option \<Rightarrow> jstring \<Rightarrow> (jstring \<times> task_entry) list \<Rightarrow> 't page_state \<Rightarrow>
   fetch_call list \<times> 't page_state" where
  "poll_tick eager fetch tfetch env workspaceId entries s =
     (if entries = [] then ([], s)
      else
        (let calls = concat (map (\<lambda>e. fst (getTask fetch env (taskId (snd e)))) entries);
             updates = map (poll_one fetch env) entries;
             (next, assigned) = apply_updates updates (activeIndexTasks s) False;
             s1 = s\<lparr>activeIndexTasks := next\<rparr>;
             shouldRefreshDocs = (if eager then assigned else False)
         in if shouldRefreshDocs
            then (let (calls2, s2) = refreshTree tfetch env workspaceId s1
                  in (calls @ calls2, s2))
            else (calls, s1)))"

text \<open>The effect starts the timer only when some entry has a task id.\<close>

definition timer_started :: "(jstring \<times> task_entry) list \<Rightarrow> bool" where
  "timer_started tasks = (filter (\<lambda>i. i \<noteq> []) (map (\<lambda>e. taskId (snd e)) tasks) \<noteq> [])"

text \<open>A poll cycle: the timer, if started, fires on the dictionary it was set up with.\<close>

definition poll_cycle ::
  "bool \<Rightarrow> (fetch_call \<Rightarrow> thrown + Task response) \<Rightarrow> (fetch_call \<Rightarrow> thrown + 't response) \<Rightarrow>
   jstring option \<Rightarrow> jstring \<Rightarrow> 't page_state \<Rightarrow> fetch_call list \<times> 't page_state" where
  "poll_cycle eager fetch tfetch env workspaceId s =
     (if timer_started (activeIndexTasks s)
      then poll_tick eager fetch tfetch env workspaceId (activeIndexTasks s) s
      else ([], s))"

subsection \<open>Sending a chat turn\<close>

text \<open>
  \<open>String.prototype.trim\<close> removes the white space and line terminators of ECMAScript
  from both ends.
\<close>

definition is_white :: "16 word \<Rightarrow> bool" where
  "is_white u =
     (u \<in> set [0x9, 0xA, 0xB, 0xC, 0xD, 0x20, 0xA0, 0x1680, 0x2028, 0x2029, 0x202F, 0x205F,
               0x3000, 0xFEFF]
      \<or> (0x2000 \<le> u \<and> u \<le> 0x200A))"

definition trim :: "jstring \<Rightarrow> jstring" where
  "trim s = rev (dropWhile is_white (rev (dropWhile is_white s)))"

definition PENDING :: jstring where
  "PENDING = ascii ''__pending__''"

text \<open>The three literals of the page that are not ASCII, by their code units.\<close>

definition STAGE_RETRIEVING :: jstring where
  "STAGE_RETRIEVING = [0x6B63, 0x5728, 0x68C0, 0x7D22, 0x76F8, 0x5173, 0x7247, 0x6BB5, 0x2026]"


definition REQUEST_FAILED :: jstring where
  "REQUEST_FAILED = [0x8BF7, 0x6C42, 0x5931, 0x8D25, 0xFF1A]"

definition is_pending :: "chat_message \<Rightarrow> bool" where
  "is_pending m = (role m = Assistant \<and> content m = PENDING)"

text \<open>
  The loop \<open>for (let i = next.length - 1; i >= 0; i--)\<close> of both message updaters:
  \<open>find_pending ms n\<close> looks at the indices \<open>n - 1\<close> down to \<open>0\<close> and answers the first
  one that holds a pending assistant message.
\<close>

fun find_pending :: "chat_message list \<Rightarrow> nat \<Rightarrow> nat option" where
  "find_pending ms 0 = None"
| "find_pending ms (Suc i) = (if is_pending (ms ! i) then Some i else find_pending ms i)"

definition replace_pending :: "chat_message \<Rightarrow> chat_message list \<Rightarrow> chat_message list" where
  "replace_pending new prev =
     (case find_pending prev (length prev) of
        Some i \<Rightarrow> prev[i := new]
      | None \<Rightarrow> prev @ [new])"

text \<open>The message updater of the success path and the one of the \<open>catch\<close> block.\<close>

definition answer_message :: "chat_out \<Rightarrow> chat_message" where
  "answer_message out =
     \<lparr>role = Assistant, content = or_empty (answer out), refs = Some (out_refs out)\<rparr>"

definition failure_message :: "thrown \<Rightarrow> chat_message" where
  "failure_message e = \<lparr>role = Assistant, content = REQUEST_FAILED @ errToString e, refs = None\<rparr>"

definition on_success_messages :: "chat_out \<Rightarrow> chat_message list \<Rightarrow> chat_message list" where
  "on_success_messages out prev = replace_pending (answer_message out) prev"

definition on_failure_messages :: "thrown \<Rightarrow> chat_message list \<Rightarrow> chat_message list" where
  "on_failure_messages e prev = replace_pending (failure_message e) prev"

text \<open>What follows \<open>await chat(...)\<close> in the \<open>try\<close> block, and the \<open>catch\<close> block.\<close>

definition on_chat_resolved :: "jstring \<Rightarrow> chat_out \<Rightarrow> 't page_state \<Rightarrow> 't page_state" where
  "on_chat_resolved workspaceId out s =
     (let s1 = s\<lparr>conversationId := Some (out_conversation_id out)\<rparr>;
          s2 = s1\<lparr>localStorage :=
                    (localStorage s1)(conversationKey workspaceId \<mapsto> out_conversation_id out)\<rparr>
      in s2\<lparr>messages := on_success_messages out (messages s2)\<rparr>)"

definition on_chat_rejected :: "thrown \<Rightarrow> 't page_state \<Rightarrow> 't page_state" where
  "on_chat_rejected e s = s\<lparr>messages := on_failure_messages e (messages s)\<rparr>"

text \<open>The payload \<open>onSend\<close> passes to \<open>chat\<close>: the conversation id of the state, or \<open>null\<close>.\<close>

definition onSend_payload :: "'t page_state \<Rightarrow> chat_payload" where
  "onSend_payload s =
     \<lparr>conversation_id = (case conversationId s of None \<Rightarrow> Null | Some c \<Rightarrow> Val c),
      message = trim (input s),
      top_k = None\<rparr>"

definition onSend ::
  "(fetch_call \<Rightarrow> thrown + chat_out response) \<Rightarrow> jstring option \<Rightarrow> jstring \<Rightarrow> 't page_state \<Rightarrow>
   fetch_call list \<times> 't page_state" where
  "onSend fetch env workspaceId s =
     (let text = trim (input s) in
      if text = [] then ([], s)
      else
        (let s1 = s\<lparr>input := [], sending := True, sendStage := Some STAGE_RETRIEVING\<rparr>;
             s2 = s1\<lparr>messages := messages s1 @ [\<lparr>role = User, content = text, refs = None\<rparr>]\<rparr>;
             s3 = s2\<lparr>messages :=
                       messages s2 @ [\<lparr>role = Assistant, content = PENDING, refs = None\<rparr>]\<rparr>;
             (calls, out) = chat fetch env workspaceId (onSend_payload s);
             s4 = (case out of
                     Inr res \<Rightarrow> on_chat_resolved workspaceId res s3
                   | Inl e \<Rightarrow> on_chat_rejected e s3)
         in (calls, s4\<lparr>sending := False, sendStage := None\<rparr>)))"


subsection \<open>Reading a poll cycle\<close>

text \<open>
  Notions used to state what the timer callback does: the answer polled for an entry,
  what an update list does to the value of one key, whether it removes the key, and
  whether some update carries a terminal status.
\<close>

definition polled ::
  "(fetch_call \<Rightarrow> thrown + Task response) \<Rightarrow> jstring option \<Rightarrow> task_entry \<Rightarrow> Task option" where
  "polled fetch env t =
     (case snd (getTask fetch env (taskId t)) of Inl err \<Rightarrow> None | Inr latest \<Rightarrow> Some latest)"

fun update_effect :: "Task option option \<Rightarrow> task_entry option \<Rightarrow> task_entry option" where
  "update_effect None old = old"
| "update_effect (Some None) old = old"
| "update_effect (Some (Some latest)) old =
     (if is_terminal (t_status latest) then None else Some (entry_of latest))"

fun removed_by :: "Task option option \<Rightarrow> bool" where
  "removed_by None = False"
| "removed_by (Some None) = False"
| "removed_by (Some (Some latest)) = is_terminal (t_status latest)"

definition any_terminal :: "(jstring \<times> Task option) list \<Rightarrow> bool" where
  "any_terminal us =
     list_ex (\<lambda>u. case snd u of None \<Rightarrow> False | Some latest \<Rightarrow> is_terminal (t_status latest)) us"

section \<open>Example values\<close>

text \<open>A page state, a server that fails and one that answers, for concrete runs.\<close>

definition example_page :: "unit page_state" where
  "example_page =
     \<lparr>tree = None, docLoading = False, docError = None, uploading = False,
      activeIndexTasks = [], messages = [], input = ascii '' hi '', sending = False,
      sendStage = None, conversationId = None, historyNextBefore = None,
      localStorage = Map.empty\<rparr>"

definition failing_fetch :: "fetch_call \<Rightarrow> thrown + 'a response" where
  "failing_fetch c =
     Inr \<lparr>ok = False, http_status = 500, statusText = ascii ''Oops'',
          resp_text = Inr (ascii ''boom''), resp_json = Inl (Error [])\<rparr>"

definition answering_fetch :: "fetch_call \<Rightarrow> thrown + chat_out response" where
  "answering_fetch c =
     Inr \<lparr>ok = True, http_status = 200, statusText = ascii ''OK'',
          resp_text = Inr [],
          resp_json = Inr \<lparr>out_conversation_id = ascii ''c1'', answer = ascii ''yes'',
                            out_refs = []\<rparr>\<rparr>"


definition example_task :: Task where
  "example_task =
     \<lparr>t_id = ascii ''t1'', t_workspace_id = ascii ''w1'', t_document_id = Val (ascii ''d1''),
      t_type = ascii ''document_index'', t_status = ascii ''running'',
      t_stage = Undefined, t_progress = Null, t_error = Some JNull, t_result = Some JNull,
      t_attempt = 1, t_max_attempts = 3, t_created_at = ascii ''2025'',
      t_started_at = Null, t_finished_at = Null, t_updated_at = ascii ''2025''\<rparr>"

definition task_fetch :: "Task \<Rightarrow> fetch_call \<Rightarrow> thrown + Task response" where
  "task_fetch t c =
     Inr \<lparr>ok = True, http_status = 200, statusText = ascii ''OK'',
          resp_text = Inr [], resp_json = Inr t\<rparr>"

definition upload_fetch :: "fetch_call \<Rightarrow> thrown + upload_out response" where
  "upload_fetch c =
     Inr \<lparr>ok = True, http_status = 200, statusText = ascii ''OK'', resp_text = Inr [],
          resp_json = Inr \<lparr>up_workspace_id = ascii ''w1'', document_id = ascii ''d1'',
                            task_id = ascii ''t1'', task_status = ascii ''pending''\<rparr>\<rparr>"

definition example_file :: File where
  "example_file = \<lparr>file_name = ascii ''a.txt'', file_bytes = [104, 105]\<rparr>"

definition polling_fetch :: "fetch_call \<Rightarrow> thrown + Task response" where
  "polling_fetch c =
     (if url c = ascii ''http://localhost:8000/tasks/t1''
      then task_fetch (example_task\<lparr>t_status := ascii ''succeeded''\<rparr>) c
      else task_fetch (example_task\<lparr>t_id := ascii ''t2''\<rparr>) c)"

definition example_entries :: "(jstring \<times> task_entry) list" where
  "example_entries =
     [(ascii ''d1'', \<lparr>taskId = ascii ''t1'', status = ascii ''pending'',
                      stage = Null, progress = Null, error = None\<rparr>),
      (ascii ''d2'', \<lparr>taskId = ascii ''t2'', status = ascii ''pending'',
                      stage = Null, progress = Null, error = None\<rparr>)]"

section \<open>Properties of gradientForId\<close>

lemma array_from_nonempty: "ch \<in> set (array_from s) \<Longrightarrow> ch \<noteq> []"
  by (induction s rule: array_from.induct) (auto split: if_splits)

lemma charCodeAt_first: "ch \<noteq> [] \<Longrightarrow> charCodeAt ch 0 = Some (unat (hd ch))"
  by (cases ch) (simp_all add: charCodeAt_def)

lemma foldl_codes:
  "\<forall>ch \<in> set chs. ch \<noteq> [] \<Longrightarrow>
   foldl (\<lambda>acc ch. num_add acc (charCodeAt ch 0)) (Some a) chs
     = Some (a + sum_list (map (\<lambda>ch. unat (hd ch)) chs))"
proof (induction chs arbitrary: a)
  case Nil
  then show ?case by simp
next
  case (Cons c cs)
  then have "charCodeAt c 0 = Some (unat (hd c))"
    by (simp add: charCodeAt_first)
  with Cons show ?case
    by (simp add: num_add_def add.assoc)
qed

lemma codeSum_eq: "codeSum ident = Some (sum_list (firstUnits ident))"
  unfolding codeSum_def firstUnits_def
  using foldl_codes [of "array_from ident" 0] array_from_nonempty by auto

lemma length_array_from: "length (array_from s) \<le> length s"
  by (induction s rule: array_from.induct) auto

lemma sum_list_bounded:
  "\<forall>x \<in> set xs. x \<le> (b::nat) \<Longrightarrow> sum_list xs \<le> b * length xs"
  by (induction xs) auto

lemma firstUnits_bound: "sum_list (firstUnits ident) \<le> 65535 * length ident"
proof -
  have u: "unat w \<le> 65535" for w :: "16 word"
    using unsigned_less [of w, where ?'a = nat] by simp
  have "\<forall>x \<in> set (firstUnits ident). x \<le> 65535"
    by (auto simp: firstUnits_def u)
  then have "sum_list (firstUnits ident) \<le> 65535 * length (firstUnits ident)"
    by (rule sum_list_bounded)
  also have "\<dots> \<le> 65535 * length ident"
    using length_array_from [of ident] by (simp add: firstUnits_def)
  finally show ?thesis .
qed

lemma length_palettes: "length palettes = 5"
  by (simp add: palettes_def)

text \<open>
  C8: for every string, \<open>gradientForId\<close> returns (it is a total function and never takes
  the \<open>TypeError\<close> branch) the prefix \<open>bg-gradient-to-br\<close> followed by the classes of the
  palette whose index is the sum of the character codes modulo the palette count; that
  index is below the number of palettes, and there are exactly five palettes, pairwise
  different, of three classes each. Being a function of \<open>id\<close> alone, equal inputs give
  equal outputs.
\<close>

theorem gradientForId_in_range:
  "gradientForId ident =
     Inr (ascii ''bg-gradient-to-br '' @
          join (ascii '' '') (palettes ! (sum_list (firstUnits ident) mod length palettes)))
   \<and> sum_list (firstUnits ident) mod length palettes < length palettes
   \<and> length palettes = 5 \<and> distinct palettes
   \<and> list_all (\<lambda>p. length p = 3) palettes
   \<and> sum_list (firstUnits ident) \<le> 65535 * length ident"
proof -
  let ?k = "sum_list (firstUnits ident) mod length palettes"
  have k: "?k < length palettes"
    by (simp add: length_palettes)
  have "gradientForId ident = Inr (ascii ''bg-gradient-to-br '' @ join (ascii '' '') (palettes ! ?k))"
    using k by (simp add: gradientForId_def codeSum_eq num_mod_def array_get_def length_palettes)
  moreover have "distinct palettes"
    by (simp add: palettes_def ascii_def)
  moreover have "list_all (\<lambda>p. length p = 3) palettes"
    by (simp add: palettes_def)
  ultimately show ?thesis
    using k firstUnits_bound length_palettes by blast
qed

theorem gradientForId_in_range_witness:
  "gradientForId (ascii ''ab'') =
     Inr (ascii ''bg-gradient-to-br from-indigo-500/30 via-sky-500/20 to-emerald-500/30'')"
proof -
  have "sum_list (firstUnits (ascii ''ab'')) mod length palettes = 0"
    by (simp add: firstUnits_def ascii_def length_palettes
        is_high_surrogate_def is_low_surrogate_def)
  then show ?thesis
    using gradientForId_in_range [of "ascii ''ab''"]
    by (simp add: palettes_def ascii_def)
qed

section \<open>Properties of the PDF viewer's page navigation\<close>

lemma clampedPage_low: "numPages s \<le> 0 \<Longrightarrow> clampedPage s = 1"
  by (simp add: clampedPage_def)

lemma clampedPage_range: "0 < numPages s \<Longrightarrow> 1 \<le> clampedPage s \<and> clampedPage s \<le> numPages s"
  by (simp add: clampedPage_def)

lemma click_numPages: "numPages (click s c) = numPages s"
  by (cases c) (simp_all add: on_prev_def on_next_def)

lemma click_keeps_page_clamped:
  "page s = clampedPage s \<Longrightarrow> page (click s c) = clampedPage (click s c)"
  by (cases c)
     (auto simp: clampedPage_def prev_disabled_def next_disabled_def on_prev_def on_next_def
           split: if_splits)

lemma clicks_numPages: "numPages (clicks s cs) = numPages s"
  unfolding clicks_def by (induction cs arbitrary: s) (simp_all add: click_numPages)

lemma clicks_keep_page_clamped:
  "page s = clampedPage s \<Longrightarrow> page (clicks s cs) = clampedPage (clicks s cs)"
  unfolding clicks_def
  by (induction cs arbitrary: s) (simp_all add: click_keeps_page_clamped)

text \<open>
  C9: whatever \<open>page\<close> and \<open>numPages\<close> are, \<open>clampedPage\<close> is 1 when \<open>numPages\<close> is not
  positive and lies between 1 and \<open>numPages\<close> otherwise. The two buttons keep the bound:
  after any sequence of clicks (a click on a disabled button does nothing) the page count
  is unchanged, a \<open>page\<close> that was equal to its clamped value still is, and the page asked
  of a document with at least one page is one of its pages.
\<close>

theorem clampedPage_bounds:
  "(numPages s \<le> 0 \<longrightarrow> clampedPage s = 1)
   \<and> (0 < numPages s \<longrightarrow> 1 \<le> clampedPage s \<and> clampedPage s \<le> numPages s)
   \<and> numPages (clicks s cs) = numPages s
   \<and> (page s = clampedPage s \<longrightarrow> page (clicks s cs) = clampedPage (clicks s cs))
   \<and> (0 < numPages s \<longrightarrow>
        1 \<le> requested_page (clicks s cs) \<and> requested_page (clicks s cs) \<le> numPages s)"
proof -
  have "0 < numPages s \<Longrightarrow>
        1 \<le> requested_page (clicks s cs) \<and> requested_page (clicks s cs) \<le> numPages s"
    using clampedPage_range [of "clicks s cs"]
    by (simp add: requested_page_def clicks_numPages)
  then show ?thesis
    using clampedPage_low clampedPage_range clicks_numPages clicks_keep_page_clamped
    by blast
qed

theorem clampedPage_bounds_witness:
  "clampedPage \<lparr>numPages = 0, page = 7, loading = False\<rparr> = 1
   \<and> clampedPage \<lparr>numPages = 3, page = 7, loading = False\<rparr> = 3
   \<and> page (clicks \<lparr>numPages = 3, page = 2, loading = False\<rparr> [Next, Next, Next]) = 3
   \<and> requested_page (clicks \<lparr>numPages = 3, page = 2, loading = False\<rparr> [Prev, Prev, Prev]) = 1"
proof -
  have a: "clampedPage \<lparr>numPages = 0, page = 7, loading = False\<rparr> = 1"
    using clampedPage_bounds [of "\<lparr>numPages = 0, page = 7, loading = False\<rparr>" "[]"]
    by simp
  have b: "clampedPage \<lparr>numPages = 3, page = 7, loading = False\<rparr> = 3"
    by (simp add: clampedPage_def)
  have c: "page (clicks \<lparr>numPages = 3, page = 2, loading = False\<rparr> [Next, Next, Next]) = 3"
    by (simp add: clicks_def next_disabled_def clampedPage_def on_next_def)
  have d: "requested_page (clicks \<lparr>numPages = 3, page = 2, loading = False\<rparr> [Prev, Prev, Prev]) = 1"
    by (simp add: clicks_def prev_disabled_def clampedPage_def on_prev_def requested_page_def)
  from a b c d show ?thesis by simp
qed

section \<open>Properties of the recent-workspaces list\<close>

text \<open>
  C10: after \<open>onOpenWorkspace\<close> the stored item is an array whose first entry is the
  opened workspace with the time of the call, followed by the earlier entries of other
  workspaces in their order; it has at most 20 entries, and no workspace id occurs twice
  in it if none did before. \<open>saveRecent\<close> stores at most 20 entries of any list.
\<close>

theorem onOpenWorkspace_recent:
  "loadRecent (onOpenWorkspace w now st) =
     take 20 (\<lparr>workspace_id = w, last_opened_at = now\<rparr>
              # filter (\<lambda>x. workspace_id x \<noteq> w) (loadRecent st))
   \<and> hd (loadRecent (onOpenWorkspace w now st)) = \<lparr>workspace_id = w, last_opened_at = now\<rparr>
   \<and> loadRecent (onOpenWorkspace w now st) \<noteq> []
   \<and> length (loadRecent (onOpenWorkspace w now st)) \<le> 20
   \<and> length (loadRecent (saveRecent items)) \<le> 20
   \<and> (distinct (map workspace_id (loadRecent st)) \<longrightarrow>
        distinct (map workspace_id (loadRecent (onOpenWorkspace w now st))))"
proof -
  let ?e = "\<lparr>workspace_id = w, last_opened_at = now\<rparr>"
  let ?rest = "filter (\<lambda>x. workspace_id x \<noteq> w) (loadRecent st)"
  have eq: "loadRecent (onOpenWorkspace w now st) = take 20 (?e # ?rest)"
    by (simp add: onOpenWorkspace_def saveRecent_def)
  have d: "distinct (map workspace_id (take 20 (?e # ?rest)))"
    if "distinct (map workspace_id (loadRecent st))"
  proof -
    have "distinct (map workspace_id ?rest)"
      using that by (simp add: distinct_map_filter)
    moreover have "w \<notin> set (map workspace_id ?rest)"
      by auto
    ultimately have "distinct (map workspace_id (?e # ?rest))"
      by simp
    then show ?thesis
      by (metis distinct_take take_map)
  qed
  have "length (loadRecent (saveRecent items)) \<le> 20"
    by (simp add: saveRecent_def)
  with eq d show ?thesis
    by (simp add: numeral_eq_Suc)
qed

theorem onOpenWorkspace_recent_witness:
  "loadRecent (onOpenWorkspace (ascii ''b'') (ascii ''t2'')
      (ArrayOf [\<lparr>workspace_id = ascii ''a'', last_opened_at = ascii ''t0''\<rparr>,
                \<lparr>workspace_id = ascii ''b'', last_opened_at = ascii ''t1''\<rparr>]))
   = [\<lparr>workspace_id = ascii ''b'', last_opened_at = ascii ''t2''\<rparr>,
      \<lparr>workspace_id = ascii ''a'', last_opened_at = ascii ''t0''\<rparr>]
   \<and> distinct (map workspace_id (loadRecent (onOpenWorkspace (ascii ''b'') (ascii ''t2'')
      (ArrayOf [\<lparr>workspace_id = ascii ''a'', last_opened_at = ascii ''t0''\<rparr>,
                \<lparr>workspace_id = ascii ''b'', last_opened_at = ascii ''t1''\<rparr>]))))"
  using onOpenWorkspace_recent [of "ascii ''b''" "ascii ''t2''"
      "ArrayOf [\<lparr>workspace_id = ascii ''a'', last_opened_at = ascii ''t0''\<rparr>,
                \<lparr>workspace_id = ascii ''b'', last_opened_at = ascii ''t1''\<rparr>]" "[]"]
  by (simp add: ascii_def)

section \<open>Properties of the HTTP client\<close>

lemma request_calls:
  "fst (request fetch env path init) =
     [\<lparr>url = apiBaseUrl env @ path,
       call_method = (case init of None \<Rightarrow> None | Some i \<Rightarrow> init_method i),
       call_headers = (case init of None \<Rightarrow> []
                       | Some i \<Rightarrow> (case init_headers i of None \<Rightarrow> [] | Some h \<Rightarrow> h)),
       call_body = (case init of None \<Rightarrow> None | Some i \<Rightarrow> init_body i)\<rparr>]"
  by (simp add: request_def Let_def)

lemma request_resolves:
  "fetch (hd (fst (request fetch env path init))) = Inr resp \<Longrightarrow> ok resp \<Longrightarrow>
   snd (request fetch env path init) = resp_json resp"
  by (simp add: request_def Let_def)

lemma request_rejects_not_ok:
  "fetch (hd (fst (request fetch env path init))) = Inr resp \<Longrightarrow> \<not> ok resp \<Longrightarrow>
   resp_text resp = Inr t \<Longrightarrow>
   snd (request fetch env path init) =
     Inl (Error (decimal (http_status resp) @ ascii '' '' @ statusText resp @ ascii '': '' @ t))"
  by (simp add: request_def Let_def)

lemma request_rejects_network:
  "fetch (hd (fst (request fetch env path init))) = Inl e \<Longrightarrow>
   snd (request fetch env path init) = Inl e"
  by (simp add: request_def Let_def)

lemma stringify_chat_payload_inj:
  "stringify_chat_payload q = stringify_chat_payload p \<Longrightarrow> q = p"
  by (cases p; cases q)
     (auto simp: stringify_chat_payload_def ascii_def split: optional.splits option.splits)

text \<open>
  C1: for every workspace id and payload, \<open>chat\<close> makes exactly one call of \<open>fetch\<close>: a
  \<open>POST\<close> to the base URL followed by \<open>/workspaces/{workspace_id}/chat\<close>, with the JSON
  content type and the payload as JSON body (different payloads give different bodies).
  When the response is ok, \<open>chat\<close> resolves to what the body parses to, an object of
  conversation id, answer and the array \<open>refs\<close> of citations.
\<close>

theorem chat_posts_payload:
  "fst (chat fetch env w p) =
     [\<lparr>url = apiBaseUrl env @ ascii ''/workspaces/'' @ w @ ascii ''/chat'',
       call_method = Some POST,
       call_headers = [(ascii ''Content-Type'', ascii ''application/json'')],
       call_body = Some (JsonText (stringify_chat_payload p))\<rparr>]
   \<and> sent_method (hd (fst (chat fetch env w p))) = POST
   \<and> (\<forall>resp. fetch (hd (fst (chat fetch env w p))) = Inr resp \<and> ok resp
        \<longrightarrow> snd (chat fetch env w p) = resp_json resp)
   \<and> (\<forall>q. stringify_chat_payload q = stringify_chat_payload p \<longrightarrow> q = p)"
proof -
  have calls: "fst (chat fetch env w p) =
     [\<lparr>url = apiBaseUrl env @ ascii ''/workspaces/'' @ w @ ascii ''/chat'',
       call_method = Some POST,
       call_headers = [(ascii ''Content-Type'', ascii ''application/json'')],
       call_body = Some (JsonText (stringify_chat_payload p))\<rparr>]"
    unfolding chat_def by (simp add: request_calls)
  have "sent_method (hd (fst (chat fetch env w p))) = POST"
    by (simp add: calls sent_method_def)
  moreover have "snd (chat fetch env w p) = resp_json resp"
    if "fetch (hd (fst (chat fetch env w p))) = Inr resp" "ok resp" for resp
    using that unfolding chat_def by (rule request_resolves)
  ultimately show ?thesis
    using calls stringify_chat_payload_inj by blast
qed

theorem chat_posts_payload_witness:
  "snd (chat answering_fetch None (ascii ''w1'')
          \<lparr>conversation_id = Null, message = ascii ''q'', top_k = None\<rparr>)
   = Inr \<lparr>out_conversation_id = ascii ''c1'', answer = ascii ''yes'', out_refs = []\<rparr>
   \<and> fst (chat answering_fetch None (ascii ''w1'')
          \<lparr>conversation_id = Null, message = ascii ''q'', top_k = None\<rparr>)
   = [\<lparr>url = ascii ''http://localhost:8000/workspaces/w1/chat'',
       call_method = Some POST,
       call_headers = [(ascii ''Content-Type'', ascii ''application/json'')],
       call_body = Some (JsonText (JObj [(ascii ''conversation_id'', JNull),
                                         (ascii ''message'', JStr (ascii ''q''))]))\<rparr>]"
proof -
  let ?p = "\<lparr>conversation_id = Null, message = ascii ''q'', top_k = None\<rparr>"
  note t = chat_posts_payload [of answering_fetch None "ascii ''w1''" ?p]
  have r: "answering_fetch (hd (fst (chat answering_fetch None (ascii ''w1'') ?p))) =
        Inr \<lparr>ok = True, http_status = 200, statusText = ascii ''OK'', resp_text = Inr [],
             resp_json = Inr \<lparr>out_conversation_id = ascii ''c1'', answer = ascii ''yes'',
                               out_refs = []\<rparr>\<rparr>"
    by (simp add: answering_fetch_def)
  from t r have "snd (chat answering_fetch None (ascii ''w1'') ?p) =
      Inr \<lparr>out_conversation_id = ascii ''c1'', answer = ascii ''yes'', out_refs = []\<rparr>"
    by simp
  moreover from t have "fst (chat answering_fetch None (ascii ''w1'') ?p) =
     [\<lparr>url = apiBaseUrl None @ ascii ''/workspaces/'' @ ascii ''w1'' @ ascii ''/chat'',
       call_method = Some POST,
       call_headers = [(ascii ''Content-Type'', ascii ''application/json'')],
       call_body = Some (JsonText (stringify_chat_payload ?p))\<rparr>]"
    by (rule conjunct1)
  ultimately show ?thesis
    by (simp add: apiBaseUrl_def DEFAULT_BASE_def stringify_chat_payload_def ascii_def)
qed

section \<open>Properties of the chat panel\<close>

lemma find_pending_Some:
  "find_pending ms n = Some i \<Longrightarrow>
   i < n \<and> is_pending (ms ! i) \<and> (\<forall>j. i < j \<and> j < n \<longrightarrow> \<not> is_pending (ms ! j))"
proof (induction n)
  case 0
  then show ?case by simp
next
  case (Suc n)
  show ?case
  proof (cases "is_pending (ms ! n)")
    case True
    with Suc.prems show ?thesis by auto
  next
    case False
    with Suc.prems have "find_pending ms n = Some i" by simp
    with Suc.IH have "i < n \<and> is_pending (ms ! i) \<and> (\<forall>j. i < j \<and> j < n \<longrightarrow> \<not> is_pending (ms ! j))"
      by simp
    with False show ?thesis
      using less_Suc_eq by auto
  qed
qed

lemma find_pending_None:
  "find_pending ms n = None \<Longrightarrow> \<forall>j<n. \<not> is_pending (ms ! j)"
  by (induction n) (auto simp: less_Suc_eq split: if_splits)

lemma replace_pending_cases:
  "(\<exists>i<length prev. is_pending (prev ! i)
        \<and> (\<forall>j. i < j \<and> j < length prev \<longrightarrow> \<not> is_pending (prev ! j))
        \<and> (\<forall>new. replace_pending new prev = prev[i := new]))
   \<or> ((\<forall>m \<in> set prev. \<not> is_pending m) \<and> (\<forall>new. replace_pending new prev = prev @ [new]))"
proof (cases "find_pending prev (length prev)")
  case None
  then have "\<forall>j<length prev. \<not> is_pending (prev ! j)"
    by (rule find_pending_None)
  then have "\<forall>m \<in> set prev. \<not> is_pending m"
    by (auto simp: in_set_conv_nth)
  with None show ?thesis
    by (simp add: replace_pending_def)
next
  case (Some i)
  from find_pending_Some [OF Some] Some show ?thesis
    by (auto simp: replace_pending_def)
qed

lemma replace_pending_snoc:
  "is_pending p \<Longrightarrow> replace_pending new (ms @ [p]) = ms @ [new]"
  by (simp add: replace_pending_def)

text \<open>
  C7: on every message list the two updaters of \<open>onSend\<close> act alike. If the list holds a
  pending assistant placeholder, they overwrite the entry at the greatest such index and
  leave every other entry and the length as they were; if it holds none, they append
  one entry and leave the list before it unchanged.
\<close>

theorem message_updaters_frame:
  "(\<exists>i<length prev. is_pending (prev ! i)
        \<and> (\<forall>j. i < j \<and> j < length prev \<longrightarrow> \<not> is_pending (prev ! j))
        \<and> on_success_messages out prev = prev[i := answer_message out]
        \<and> on_failure_messages e prev = prev[i := failure_message e]
        \<and> (\<forall>j<length prev. j \<noteq> i \<longrightarrow>
              on_success_messages out prev ! j = prev ! j
              \<and> on_failure_messages e prev ! j = prev ! j))
   \<or> ((\<forall>m \<in> set prev. \<not> is_pending m)
       \<and> on_success_messages out prev = prev @ [answer_message out]
       \<and> on_failure_messages e prev = prev @ [failure_message e])"
proof -
  consider (found) i where "i < length prev" "is_pending (prev ! i)"
      "\<forall>j. i < j \<and> j < length prev \<longrightarrow> \<not> is_pending (prev ! j)"
      "\<forall>new. replace_pending new prev = prev[i := new]"
    | (none) "\<forall>m \<in> set prev. \<not> is_pending m" "\<forall>new. replace_pending new prev = prev @ [new]"
    using replace_pending_cases [of prev] by blast
  then show ?thesis
  proof cases
    case found
    then have "is_pending (prev ! i)
        \<and> (\<forall>j. i < j \<and> j < length prev \<longrightarrow> \<not> is_pending (prev ! j))
        \<and> on_success_messages out prev = prev[i := answer_message out]
        \<and> on_failure_messages e prev = prev[i := failure_message e]
        \<and> (\<forall>j<length prev. j \<noteq> i \<longrightarrow>
              on_success_messages out prev ! j = prev ! j
              \<and> on_failure_messages e prev ! j = prev ! j)"
      by (simp add: on_success_messages_def on_failure_messages_def)
    with found(1) show ?thesis by blast
  next
    case none
    then show ?thesis
      by (simp add: on_success_messages_def on_failure_messages_def)
  qed
qed

theorem message_updaters_frame_witness:
  "on_failure_messages (Error (ascii ''x''))
     [\<lparr>role = Assistant, content = PENDING, refs = None\<rparr>,
      \<lparr>role = User, content = ascii ''b'', refs = None\<rparr>]
   = [\<lparr>role = Assistant, content = REQUEST_FAILED @ ascii ''x'', refs = None\<rparr>,
      \<lparr>role = User, content = ascii ''b'', refs = None\<rparr>]"
proof -
  let ?p = "\<lparr>role = Assistant, content = PENDING, refs = None\<rparr>"
  let ?u = "\<lparr>role = User, content = ascii ''b'', refs = None\<rparr>"
  let ?out = "\<lparr>out_conversation_id = ascii ''c'', answer = ascii ''a'', out_refs = []\<rparr>"
  let ?e = "Error (ascii ''x'')"
  have pend: "is_pending ?p" "\<not> is_pending ?u"
    by (simp_all add: is_pending_def)
  from message_updaters_frame [of "[?p, ?u]" ?out ?e]
  consider (found) i where "i < length [?p, ?u]" "is_pending ([?p, ?u] ! i)"
      "on_failure_messages ?e [?p, ?u] = [?p, ?u][i := failure_message ?e]"
    | (none) "\<forall>m \<in> set [?p, ?u]. \<not> is_pending m"
    by blast
  then show ?thesis
  proof cases
    case found
    from found(1) have "i = 0 \<or> i = 1" by auto
    with found(2) pend have "i = 0" by auto
    with found(3) show ?thesis
      by (simp add: failure_message_def errToString_def)
  next
    case none
    with pend show ?thesis by simp
  qed
qed


lemma onSend_rejected:
  assumes "trim (input s) \<noteq> []"
    and "snd (chat fetch env w (onSend_payload s)) = Inl e"
  shows "snd (onSend fetch env w s) =
     s\<lparr>input := [],
       messages := messages s @ [\<lparr>role = User, content = trim (input s), refs = None\<rparr>,
                                 failure_message e],
       sending := False, sendStage := None\<rparr>"
proof -
  have pend: "is_pending \<lparr>role = Assistant, content = PENDING, refs = None\<rparr>"
    by (simp add: is_pending_def)
  have "replace_pending (failure_message e)
          ((messages s @ [\<lparr>role = User, content = trim (input s), refs = None\<rparr>])
            @ [\<lparr>role = Assistant, content = PENDING, refs = None\<rparr>])
        = (messages s @ [\<lparr>role = User, content = trim (input s), refs = None\<rparr>])
            @ [failure_message e]"
    using pend by (rule replace_pending_snoc)
  with assms show ?thesis
    by (simp add: onSend_def Let_def split_beta on_chat_rejected_def on_failure_messages_def)
qed


lemma trim_example: "trim (ascii '' hi '') = ascii ''hi''"
  by (simp add: trim_def ascii_def is_white_def)

text \<open>
  C2: in a turn whose \<open>chat\<close> call rejects with \<open>e\<close>, \<open>onSend\<close> leaves the state it found
  with the input cleared, the user's message and one assistant message appended, and the
  sending flag and stage cleared. The assistant message is the error text built from
  \<open>e\<close>; the earlier messages, the conversation id and \<open>localStorage\<close> are unchanged.
\<close>

theorem onSend_failure_path:
  assumes "trim (input s) \<noteq> []"
    and "snd (chat fetch env w (onSend_payload s)) = Inl e"
  shows "snd (onSend fetch env w s) =
           s\<lparr>input := [],
             messages := messages s @ [\<lparr>role = User, content = trim (input s), refs = None\<rparr>,
                                       failure_message e],
             sending := False, sendStage := None\<rparr>
         \<and> content (failure_message e) = REQUEST_FAILED @ errToString e
         \<and> take (length (messages s)) (messages (snd (onSend fetch env w s))) = messages s
         \<and> sending (snd (onSend fetch env w s)) = False
         \<and> sendStage (snd (onSend fetch env w s)) = None
         \<and> conversationId (snd (onSend fetch env w s)) = conversationId s
         \<and> localStorage (snd (onSend fetch env w s)) = localStorage s"
proof -
  have "snd (onSend fetch env w s) =
           s\<lparr>input := [],
             messages := messages s @ [\<lparr>role = User, content = trim (input s), refs = None\<rparr>,
                                       failure_message e],
             sending := False, sendStage := None\<rparr>"
    using assms by (rule onSend_rejected)
  then show ?thesis
    by (simp add: failure_message_def)
qed

theorem onSend_failure_path_witness:
  "messages (snd (onSend failing_fetch None (ascii ''w1'') example_page)) =
     [\<lparr>role = User, content = ascii ''hi'', refs = None\<rparr>,
      \<lparr>role = Assistant, content = REQUEST_FAILED @ ascii ''500 Oops: boom'', refs = None\<rparr>]
   \<and> sending (snd (onSend failing_fetch None (ascii ''w1'') example_page)) = False
   \<and> conversationId (snd (onSend failing_fetch None (ascii ''w1'') example_page)) = None"
proof -
  have i: "trim (input example_page) = ascii ''hi''"
    by (simp add: example_page_def trim_example)
  then have h1: "trim (input example_page) \<noteq> []"
    by (simp add: ascii_def)
  have h2: "snd (chat failing_fetch None (ascii ''w1'') (onSend_payload example_page))
              = Inl (Error (ascii ''500 Oops: boom''))"
    by (simp add: chat_def request_def failing_fetch_def ascii_def)
  have "snd (onSend failing_fetch None (ascii ''w1'') example_page) =
           example_page\<lparr>input := [],
             messages := messages example_page
                @ [\<lparr>role = User, content = trim (input example_page), refs = None\<rparr>,
                   failure_message (Error (ascii ''500 Oops: boom''))],
             sending := False, sendStage := None\<rparr>"
    using onSend_failure_path [OF h1 h2] by (rule conjunct1)
  then show ?thesis
    by (simp add: i failure_message_def errToString_def) (simp add: example_page_def)
qed

section \<open>Properties of getTask and of uploading\<close>


text \<open>
  C6: for every task id, \<open>getTask\<close> makes exactly one call of \<open>fetch\<close>, a \<open>GET\<close> of the
  base URL followed by \<open>/tasks/{task_id}\<close> with no headers and no body. When the response
  is ok it resolves to what the body parses to: a \<open>Task\<close>, which has the members status,
  stage, progress and error, stage and progress possibly null or absent.
\<close>

theorem getTask_status:
  "fst (getTask fetch env tid) =
     [\<lparr>url = apiBaseUrl env @ ascii ''/tasks/'' @ tid,
       call_method = None, call_headers = [], call_body = None\<rparr>]
   \<and> sent_method (hd (fst (getTask fetch env tid))) = GET
   \<and> (\<forall>resp. fetch (hd (fst (getTask fetch env tid))) = Inr resp \<and> ok resp
        \<longrightarrow> snd (getTask fetch env tid) = resp_json resp)"
proof -
  have calls: "fst (getTask fetch env tid) =
     [\<lparr>url = apiBaseUrl env @ ascii ''/tasks/'' @ tid,
       call_method = None, call_headers = [], call_body = None\<rparr>]"
    unfolding getTask_def by (simp add: request_calls)
  have "sent_method (hd (fst (getTask fetch env tid))) = GET"
    by (simp add: calls sent_method_def)
  moreover have "snd (getTask fetch env tid) = resp_json resp"
    if "fetch (hd (fst (getTask fetch env tid))) = Inr resp" "ok resp" for resp
    using that unfolding getTask_def by (rule request_resolves)
  ultimately show ?thesis
    using calls by blast
qed

theorem getTask_status_witness:
  "snd (getTask (task_fetch example_task) None (ascii ''t1'')) = Inr example_task
   \<and> t_status example_task = ascii ''running''
   \<and> t_stage example_task = Undefined
   \<and> t_progress example_task = Null
   \<and> t_error example_task = Some JNull"
proof -
  note t = getTask_status [of "task_fetch example_task" None "ascii ''t1''"]
  have "task_fetch example_task (hd (fst (getTask (task_fetch example_task) None (ascii ''t1''))))
          = Inr \<lparr>ok = True, http_status = 200, statusText = ascii ''OK'',
                 resp_text = Inr [], resp_json = Inr example_task\<rparr>"
    by (simp add: task_fetch_def)
  with t have "snd (getTask (task_fetch example_task) None (ascii ''t1'')) = Inr example_task"
    by simp
  then show ?thesis
    by (simp add: example_task_def)
qed

lemma refreshTree_frame:
  "activeIndexTasks (snd (refreshTree tfetch env w s)) = activeIndexTasks s
   \<and> uploading (snd (refreshTree tfetch env w s)) = uploading s
   \<and> messages (snd (refreshTree tfetch env w s)) = messages s
   \<and> conversationId (snd (refreshTree tfetch env w s)) = conversationId s
   \<and> localStorage (snd (refreshTree tfetch env w s)) = localStorage s"
  by (simp add: refreshTree_def Let_def split_beta split: sum.splits)

lemma refreshTree_calls:
  "fst (refreshTree tfetch env w s) =
     [\<lparr>url = apiBaseUrl env @ ascii ''/workspaces/'' @ w @ ascii ''/documents/tree'',
       call_method = None, call_headers = [], call_body = None\<rparr>]"
  by (simp add: refreshTree_def Let_def split_beta getDocumentTree_def request_calls)

lemma onUploadFile_resolved:
  assumes "snd (uploadDocument ufetch env w f) = Inr res"
  shows "activeIndexTasks (snd (onUploadFile ufetch tfetch env w f s)) =
           AList.update (document_id res)
             \<lparr>taskId = task_id res, status = task_status res,
              stage = Null, progress = Null, error = None\<rparr>
             (activeIndexTasks s)"
    and "uploading (snd (onUploadFile ufetch tfetch env w f s)) = False"
  using assms
  by (simp_all add: onUploadFile_def Let_def split_beta refreshTree_frame)

text \<open>
  C5: \<open>uploadDocument\<close> makes exactly one call of \<open>fetch\<close>, a \<open>POST\<close> to the base URL
  followed by \<open>/workspaces/{workspace_id}/documents/upload\<close> whose body is a form with the
  file under the name \<open>file\<close>; when the response is ok it resolves to what the body parses
  to (workspace id, document id, task id, task status). When the upload resolves,
  \<open>onUploadFile\<close> leaves under the returned document id the entry with the returned task id
  and status and with stage and progress \<open>null\<close>, leaves every other key as it was, and
  clears the uploading flag.
\<close>

theorem upload_records_task:
  "fst (uploadDocument ufetch env w f) =
     [\<lparr>url = apiBaseUrl env @ ascii ''/workspaces/'' @ w @ ascii ''/documents/upload'',
       call_method = Some POST, call_headers = [],
       call_body = Some (FormData [(ascii ''file'', f)])\<rparr>]
   \<and> (\<forall>resp. ufetch (hd (fst (uploadDocument ufetch env w f))) = Inr resp \<and> ok resp
        \<longrightarrow> snd (uploadDocument ufetch env w f) = resp_json resp)
   \<and> (\<forall>res. snd (uploadDocument ufetch env w f) = Inr res \<longrightarrow>
         map_of (activeIndexTasks (snd (onUploadFile ufetch tfetch env w f s))) (document_id res)
           = Some \<lparr>taskId = task_id res, status = task_status res,
                   stage = Null, progress = Null, error = None\<rparr>
         \<and> (\<forall>k. k \<noteq> document_id res \<longrightarrow>
               map_of (activeIndexTasks (snd (onUploadFile ufetch tfetch env w f s))) k
                 = map_of (activeIndexTasks s) k)
         \<and> uploading (snd (onUploadFile ufetch tfetch env w f s)) = False)"
proof -
  have calls: "fst (uploadDocument ufetch env w f) =
     [\<lparr>url = apiBaseUrl env @ ascii ''/workspaces/'' @ w @ ascii ''/documents/upload'',
       call_method = Some POST, call_headers = [],
       call_body = Some (FormData [(ascii ''file'', f)])\<rparr>]"
    unfolding uploadDocument_def by (simp add: request_calls)
  have res: "snd (uploadDocument ufetch env w f) = resp_json resp"
    if "ufetch (hd (fst (uploadDocument ufetch env w f))) = Inr resp" "ok resp" for resp
    using that unfolding uploadDocument_def Let_def by (rule request_resolves)
  have page: "map_of (activeIndexTasks (snd (onUploadFile ufetch tfetch env w f s))) (document_id res)
           = Some \<lparr>taskId = task_id res, status = task_status res,
                   stage = Null, progress = Null, error = None\<rparr>
         \<and> (\<forall>k. k \<noteq> document_id res \<longrightarrow>
               map_of (activeIndexTasks (snd (onUploadFile ufetch tfetch env w f s))) k
                 = map_of (activeIndexTasks s) k)
         \<and> uploading (snd (onUploadFile ufetch tfetch env w f s)) = False"
    if "snd (uploadDocument ufetch env w f) = Inr res" for res
    using onUploadFile_resolved [OF that, of tfetch s]
    by (simp add: update_conv')
  from calls res page show ?thesis
    by blast
qed

theorem upload_records_task_witness:
  "activeIndexTasks (snd (onUploadFile upload_fetch failing_fetch None (ascii ''w1'')
                            example_file example_page))
   = [(ascii ''d1'', \<lparr>taskId = ascii ''t1'', status = ascii ''pending'',
                      stage = Null, progress = Null, error = None\<rparr>)]
   \<and> map_of (activeIndexTasks (snd (onUploadFile upload_fetch failing_fetch None (ascii ''w1'')
                            example_file example_page))) (ascii ''d1'')
     = Some \<lparr>taskId = ascii ''t1'', status = ascii ''pending'',
             stage = Null, progress = Null, error = None\<rparr>"
proof -
  let ?res = "\<lparr>up_workspace_id = ascii ''w1'', document_id = ascii ''d1'',
               task_id = ascii ''t1'', task_status = ascii ''pending''\<rparr>"
  have r: "snd (uploadDocument upload_fetch None (ascii ''w1'') example_file) = Inr ?res"
    by (simp add: uploadDocument_def request_def upload_fetch_def)
  have a: "activeIndexTasks (snd (onUploadFile upload_fetch failing_fetch None (ascii ''w1'')
                            example_file example_page))
   = [(ascii ''d1'', \<lparr>taskId = ascii ''t1'', status = ascii ''pending'',
                      stage = Null, progress = Null, error = None\<rparr>)]"
    using onUploadFile_resolved(1) [OF r, of failing_fetch example_page]
    by (simp add: example_page_def)
  from upload_records_task [of upload_fetch None "ascii ''w1''" example_file failing_fetch
      example_page] r
  have "map_of (activeIndexTasks (snd (onUploadFile upload_fetch failing_fetch None (ascii ''w1'')
                            example_file example_page))) (document_id ?res)
     = Some \<lparr>taskId = task_id ?res, status = task_status ?res,
             stage = Null, progress = Null, error = None\<rparr>"
    by blast
  with a show ?thesis by simp
qed

section \<open>Properties of the conversation id\<close>









section \<open>Properties of task polling\<close>


lemma or_empty_id: "or_empty s = s"
  by (simp add: or_empty_def)

lemma apply_updates_map_of:
  "distinct (map fst us) \<Longrightarrow>
   map_of (fst (apply_updates us next flag)) k = update_effect (map_of us k) (map_of next k)"
proof (induction us "next" flag rule: apply_updates.induct)
  case (1 "next" shouldRefreshDocs)
  then show ?case by simp
next
  case (2 docId us "next" shouldRefreshDocs)
  then have "map_of us docId = None"
    by (simp add: map_of_eq_None_iff)
  with 2 show ?case by simp
next
  case (3 docId latest us "next" shouldRefreshDocs)
  then have fresh: "map_of us docId = None"
    by (simp add: map_of_eq_None_iff)
  from 3 have d: "distinct (map fst us)" by simp
  show ?case
  proof (cases "is_terminal (t_status latest)")
    case True
    with 3(1) d have "map_of (fst (apply_updates ((docId, Some latest) # us) next shouldRefreshDocs)) k
        = update_effect (map_of us k)
            (map_of (AList.delete docId (AList.update docId (entry_of latest) next)) k)"
      by (simp add: or_empty_id)
    with True fresh show ?thesis
      by (simp add: delete_conv' update_conv')
  next
    case False
    with 3(2) d have "map_of (fst (apply_updates ((docId, Some latest) # us) next shouldRefreshDocs)) k
        = update_effect (map_of us k) (map_of (AList.update docId (entry_of latest) next) k)"
      by (simp add: or_empty_id)
    with False fresh show ?thesis
      by (simp add: update_conv')
  qed
qed

lemma apply_updates_flag:
  "snd (apply_updates us next flag) = (flag \<or> any_terminal us)"
  by (induction us "next" flag rule: apply_updates.induct)
     (auto simp: any_terminal_def or_empty_id Let_def)

lemma apply_updates_keys:
  "distinct (map fst us) \<Longrightarrow> set (map fst us) \<subseteq> set (map fst next) \<Longrightarrow>
   map fst (fst (apply_updates us next flag)) =
     filter (\<lambda>k. \<not> removed_by (map_of us k)) (map fst next)"
proof (induction us "next" flag rule: apply_updates.induct)
  case (1 "next" shouldRefreshDocs)
  then show ?case by simp
next
  case (2 docId us "next" shouldRefreshDocs)
  then have fresh: "map_of us docId = None"
    by (simp add: map_of_eq_None_iff)
  have "(\<lambda>k. \<not> removed_by (map_of ((docId, None) # us) k))
        = (\<lambda>k. \<not> removed_by (map_of us k))"
    using fresh by auto
  with 2 show ?case by simp
next
  case (3 docId latest us "next" shouldRefreshDocs)
  then have fresh: "map_of us docId = None" and notin: "docId \<notin> set (map fst us)"
    by (simp_all add: map_of_eq_None_iff)
  from 3 have d: "distinct (map fst us)" and sub: "set (map fst us) \<subseteq> set (map fst next)"
    and mem: "docId \<in> set (map fst next)"
    by simp_all
  have keys_upd: "map fst (AList.update docId (entry_of latest) next) = map fst next"
    using mem by (simp add: update_keys)
  show ?case
  proof (cases "is_terminal (t_status latest)")
    case True
    have sub': "set (map fst us)
        \<subseteq> set (map fst (AList.delete docId (AList.update docId (entry_of latest) next)))"
      using sub notin by (auto simp: delete_keys keys_upd)
    from 3(1) [OF refl _ d sub'] True
    have "map fst (fst (apply_updates ((docId, Some latest) # us) next shouldRefreshDocs))
        = filter (\<lambda>k. \<not> removed_by (map_of us k))
            (removeAll docId (map fst next))"
      by (simp add: or_empty_id delete_keys keys_upd)
    also have "\<dots> = filter (\<lambda>k. \<not> removed_by (map_of ((docId, Some latest) # us) k))
            (map fst next)"
      using True by (induction "next") auto
    finally show ?thesis .
  next
    case False
    have sub': "set (map fst us) \<subseteq> set (map fst (AList.update docId (entry_of latest) next))"
      using sub by (simp add: keys_upd)
    from 3(2) [OF refl _ d sub'] False
    have "map fst (fst (apply_updates ((docId, Some latest) # us) next shouldRefreshDocs))
        = filter (\<lambda>k. \<not> removed_by (map_of us k)) (map fst next)"
      by (simp add: or_empty_id keys_upd)
    also have "\<dots> = filter (\<lambda>k. \<not> removed_by (map_of ((docId, Some latest) # us) k))
            (map fst next)"
      using False fresh by (intro filter_cong) auto
    finally show ?thesis .
  qed
qed

lemma poll_one_polled: "poll_one fetch env e = (fst e, polled fetch env (snd e))"
  by (cases e) (simp add: poll_one_def polled_def)

lemma poll_keys: "map fst (map (poll_one fetch env) entries) = map fst entries"
  by (simp add: poll_one_polled comp_def)

lemma poll_map_of:
  "map_of (map (poll_one fetch env) entries) k = map_option (polled fetch env) (map_of entries k)"
  by (induction entries) (auto simp: poll_one_polled)

lemma any_terminal_poll:
  "any_terminal (map (poll_one fetch env) entries) =
     (\<exists>docId t latest. (docId, t) \<in> set entries
        \<and> snd (getTask fetch env (taskId t)) = Inr latest \<and> is_terminal (t_status latest))"
proof -
  have one: "(case polled fetch env t of None \<Rightarrow> False
              | Some latest \<Rightarrow> is_terminal (t_status latest))
      = (\<exists>latest. snd (getTask fetch env (taskId t)) = Inr latest \<and> is_terminal (t_status latest))"
    for t
    by (cases "snd (getTask fetch env (taskId t))") (simp_all add: polled_def)
  have "any_terminal (map (poll_one fetch env) entries) =
      (\<exists>e \<in> set entries. \<exists>latest. snd (getTask fetch env (taskId (snd e))) = Inr latest
          \<and> is_terminal (t_status latest))"
    by (simp add: any_terminal_def list_ex_iff poll_one_polled one)
  also have "\<dots> = (\<exists>docId t latest. (docId, t) \<in> set entries
        \<and> snd (getTask fetch env (taskId t)) = Inr latest \<and> is_terminal (t_status latest))"
    by force
  finally show ?thesis .
qed

lemma poll_tick_tasks:
  "activeIndexTasks (snd (poll_tick eager fetch tfetch env w entries s)) =
     fst (apply_updates (map (poll_one fetch env) entries) (activeIndexTasks s) False)"
  by (simp add: poll_tick_def Let_def split_beta refreshTree_frame)

lemma poll_tick_calls:
  "fst (poll_tick eager fetch tfetch env w entries s) =
     concat (map (\<lambda>e. fst (getTask fetch env (taskId (snd e)))) entries)
     @ (if eager \<and> any_terminal (map (poll_one fetch env) entries)
        then [\<lparr>url = apiBaseUrl env @ ascii ''/workspaces/'' @ w @ ascii ''/documents/tree'',
               call_method = None, call_headers = [], call_body = None\<rparr>]
        else [])"
  by (simp add: poll_tick_def Let_def split_beta refreshTree_calls apply_updates_flag
      any_terminal_def)

lemma tree_call_not_task_call:
  "\<lparr>url = apiBaseUrl env @ ascii ''/workspaces/'' @ w @ ascii ''/documents/tree'',
    call_method = None, call_headers = [], call_body = None\<rparr>
   \<notin> set (concat (map (\<lambda>e. fst (getTask fetch env (taskId (snd e)))) entries))"
  by (auto simp: getTask_def request_calls ascii_def)

text \<open>
  What a poll cycle over entries with pairwise different document ids does. An entry whose
  task was fetched is removed when the fetched status is \<open>succeeded\<close>, \<open>failed\<close> or
  \<open>canceled\<close>, and otherwise holds the fetched id, status, stage, progress and error; an
  entry whose fetch failed and every key that was not polled keep their value; when the
  entries are those of the state, the keys that remain keep their order. The document
  tree is requested when some fetched status is terminal and React called the updater
  inside the setter, and in no other case.
\<close>

lemma poll_tick_effect:
  assumes "distinct (map fst entries)"
  shows "(\<forall>docId t latest. (docId, t) \<in> set entries
            \<and> snd (getTask fetch env (taskId t)) = Inr latest \<longrightarrow>
            map_of (activeIndexTasks (snd (poll_tick eager fetch tfetch env w entries s))) docId
              = (if is_terminal (t_status latest) then None
                 else Some \<lparr>taskId = t_id latest, status = t_status latest,
                            stage = or_null (t_stage latest),
                            progress = or_null (t_progress latest),
                            error = t_error latest\<rparr>))
       \<and> (\<forall>docId t e. (docId, t) \<in> set entries
            \<and> snd (getTask fetch env (taskId t)) = Inl e \<longrightarrow>
            map_of (activeIndexTasks (snd (poll_tick eager fetch tfetch env w entries s))) docId
              = map_of (activeIndexTasks s) docId)
       \<and> (\<forall>docId. docId \<notin> fst ` set entries \<longrightarrow>
            map_of (activeIndexTasks (snd (poll_tick eager fetch tfetch env w entries s))) docId
              = map_of (activeIndexTasks s) docId)
       \<and> ((\<lparr>url = apiBaseUrl env @ ascii ''/workspaces/'' @ w @ ascii ''/documents/tree'',
             call_method = None, call_headers = [], call_body = None\<rparr>
              \<in> set (fst (poll_tick eager fetch tfetch env w entries s)))
           = (eager \<and> (\<exists>docId t latest. (docId, t) \<in> set entries
                \<and> snd (getTask fetch env (taskId t)) = Inr latest
                \<and> is_terminal (t_status latest))))
       \<and> (entries = activeIndexTasks s \<longrightarrow>
            map fst (activeIndexTasks (snd (poll_tick eager fetch tfetch env w entries s)))
              = filter (\<lambda>k. map_of (activeIndexTasks (snd (poll_tick eager fetch tfetch env w entries s))) k
                              \<noteq> None)
                  (map fst (activeIndexTasks s)))"
proof -
  let ?us = "map (poll_one fetch env) entries"
  let ?next = "activeIndexTasks (snd (poll_tick eager fetch tfetch env w entries s))"
  have d: "distinct (map fst ?us)"
    by (simp only: poll_keys assms)
  have at: "map_of ?next k
      = update_effect (map_option (polled fetch env) (map_of entries k))
          (map_of (activeIndexTasks s) k)" for k
    using apply_updates_map_of [OF d, of "activeIndexTasks s" False k]
    by (simp add: poll_tick_tasks poll_map_of)
  have p1: "map_of ?next docId
      = (if is_terminal (t_status latest) then None
         else Some \<lparr>taskId = t_id latest, status = t_status latest,
                    stage = or_null (t_stage latest), progress = or_null (t_progress latest),
                    error = t_error latest\<rparr>)"
    if "(docId, t) \<in> set entries" "snd (getTask fetch env (taskId t)) = Inr latest"
    for docId t latest
  proof -
    from that(1) assms have "map_of entries docId = Some t"
      by simp
    with that(2) show ?thesis
      by (simp add: at polled_def entry_of_def or_empty_id)
  qed
  have p2: "map_of ?next docId = map_of (activeIndexTasks s) docId"
    if "(docId, t) \<in> set entries" "snd (getTask fetch env (taskId t)) = Inl e"
    for docId t e
  proof -
    from that(1) assms have "map_of entries docId = Some t"
      by simp
    with that(2) show ?thesis
      by (simp add: at polled_def)
  qed
  have p3: "map_of ?next docId = map_of (activeIndexTasks s) docId"
    if "docId \<notin> fst ` set entries" for docId
  proof -
    from that have "map_of entries docId = None"
      by (simp add: map_of_eq_None_iff)
    then show ?thesis
      by (simp add: at)
  qed
  have p4: "(\<lparr>url = apiBaseUrl env @ ascii ''/workspaces/'' @ w @ ascii ''/documents/tree'',
             call_method = None, call_headers = [], call_body = None\<rparr>
              \<in> set (fst (poll_tick eager fetch tfetch env w entries s)))
           = (eager \<and> (\<exists>docId t latest. (docId, t) \<in> set entries
                \<and> snd (getTask fetch env (taskId t)) = Inr latest
                \<and> is_terminal (t_status latest)))"
    using tree_call_not_task_call [of env w fetch entries]
    by (simp add: poll_tick_calls any_terminal_poll del: set_concat)
  have p5: "map fst ?next = filter (\<lambda>k. map_of ?next k \<noteq> None) (map fst (activeIndexTasks s))"
    if e: "entries = activeIndexTasks s"
  proof -
    have sub: "set (map fst ?us) \<subseteq> set (map fst (activeIndexTasks s))"
      by (simp only: poll_keys e subset_refl)
    have "map fst ?next
        = filter (\<lambda>k. \<not> removed_by (map_of ?us k)) (map fst (activeIndexTasks s))"
      using apply_updates_keys [OF d sub, of False] by (simp add: poll_tick_tasks)
    also have "\<dots> = filter (\<lambda>k. map_of ?next k \<noteq> None) (map fst (activeIndexTasks s))"
    proof (rule filter_cong [OF refl])
      fix k assume "k \<in> set (map fst (activeIndexTasks s))"
      then obtain t where t: "map_of (activeIndexTasks s) k = Some t"
        by (metis map_of_eq_None_iff not_None_eq set_map)
      from t e have t': "map_of entries k = Some t"
        by simp
      show "(\<not> removed_by (map_of ?us k)) = (map_of ?next k \<noteq> None)"
        by (cases "polled fetch env t") (simp_all add: at poll_map_of t t')
    qed
    finally show ?thesis .
  qed
  from p1 p2 p3 p4 p5 show ?thesis
    by blast
qed

text \<open>
  C3: a poll cycle updates a tracked entry in place and removes it exactly when the polled
  status is terminal (see \<open>poll_tick_effect\<close>), but it does not always refresh the
  document tree with the removal. In the run below the task of \<open>d1\<close> has succeeded and
  React applies the updater at its next render: the entry of \<open>d1\<close> is removed, the entry of
  \<open>d2\<close> holds the fetched values, and the only requests made are the two task requests;
  the document tree is not requested.
\<close>

theorem poll_tick_removes_without_refresh:
  "map_of (activeIndexTasks (snd (poll_tick False polling_fetch failing_fetch None (ascii ''w1'')
       example_entries (example_page\<lparr>activeIndexTasks := example_entries\<rparr>)))) (ascii ''d1'')
     = None
   \<and> map_of (activeIndexTasks (snd (poll_tick False polling_fetch failing_fetch None (ascii ''w1'')
       example_entries (example_page\<lparr>activeIndexTasks := example_entries\<rparr>)))) (ascii ''d2'')
     = Some \<lparr>taskId = ascii ''t2'', status = ascii ''running'',
             stage = Null, progress = Null, error = Some JNull\<rparr>
   \<and> fst (poll_tick False polling_fetch failing_fetch None (ascii ''w1'')
       example_entries (example_page\<lparr>activeIndexTasks := example_entries\<rparr>))
     = [\<lparr>url = ascii ''http://localhost:8000/tasks/t1'',
         call_method = None, call_headers = [], call_body = None\<rparr>,
        \<lparr>url = ascii ''http://localhost:8000/tasks/t2'',
         call_method = None, call_headers = [], call_body = None\<rparr>]
   \<and> \<lparr>url = ascii ''http://localhost:8000/workspaces/w1/documents/tree'',
       call_method = None, call_headers = [], call_body = None\<rparr>
      \<notin> set (fst (poll_tick False polling_fetch failing_fetch None (ascii ''w1'')
       example_entries (example_page\<lparr>activeIndexTasks := example_entries\<rparr>)))"
proof -
  let ?s = "example_page\<lparr>activeIndexTasks := example_entries\<rparr>"
  let ?e1 = "\<lparr>taskId = ascii ''t1'', status = ascii ''pending'',
               stage = Null, progress = Null, error = None\<rparr>"
  let ?e2 = "\<lparr>taskId = ascii ''t2'', status = ascii ''pending'',
               stage = Null, progress = Null, error = None\<rparr>"
  let ?done = "example_task\<lparr>t_status := ascii ''succeeded''\<rparr>"
  let ?run = "example_task\<lparr>t_id := ascii ''t2''\<rparr>"
  have d: "distinct (map fst example_entries)"
    by (simp add: example_entries_def ascii_def)
  note t = poll_tick_effect [OF d, where eager = False and fetch = polling_fetch and env = None
      and tfetch = failing_fetch and w = "ascii ''w1''" and s = ?s]
  have m1: "(ascii ''d1'', ?e1) \<in> set example_entries"
    and m2: "(ascii ''d2'', ?e2) \<in> set example_entries"
    by (simp_all add: example_entries_def)
  have g1: "snd (getTask polling_fetch None (taskId ?e1)) = Inr ?done"
    by (simp add: getTask_def request_def polling_fetch_def task_fetch_def apiBaseUrl_def
        DEFAULT_BASE_def ascii_def)
  have g2: "snd (getTask polling_fetch None (taskId ?e2)) = Inr ?run"
    by (simp add: getTask_def request_def polling_fetch_def task_fetch_def apiBaseUrl_def
        DEFAULT_BASE_def ascii_def)
  have term1: "is_terminal (t_status ?done)"
    by (simp add: is_terminal_def)
  have term2: "\<not> is_terminal (t_status ?run)"
    by (simp add: is_terminal_def example_task_def ascii_def)
  from t m1 g1 have "map_of (activeIndexTasks (snd (poll_tick False polling_fetch failing_fetch None
      (ascii ''w1'') example_entries ?s))) (ascii ''d1'')
    = (if is_terminal (t_status ?done) then None
       else Some \<lparr>taskId = t_id ?done, status = t_status ?done, stage = or_null (t_stage ?done),
                  progress = or_null (t_progress ?done), error = t_error ?done\<rparr>)"
    by blast
  with term1 have a: "map_of (activeIndexTasks (snd (poll_tick False polling_fetch failing_fetch None
      (ascii ''w1'') example_entries ?s))) (ascii ''d1'') = None"
    by simp
  from t m2 g2 have "map_of (activeIndexTasks (snd (poll_tick False polling_fetch failing_fetch None
      (ascii ''w1'') example_entries ?s))) (ascii ''d2'')
    = (if is_terminal (t_status ?run) then None
       else Some \<lparr>taskId = t_id ?run, status = t_status ?run,
                  stage = or_null (t_stage ?run),
                  progress = or_null (t_progress ?run), error = t_error ?run\<rparr>)"
    by blast
  with term2 have b: "map_of (activeIndexTasks (snd (poll_tick False polling_fetch failing_fetch None
      (ascii ''w1'') example_entries ?s))) (ascii ''d2'')
     = Some \<lparr>taskId = ascii ''t2'', status = ascii ''running'',
             stage = Null, progress = Null, error = Some JNull\<rparr>"
    by (simp add: example_task_def)
  have c: "fst (poll_tick False polling_fetch failing_fetch None (ascii ''w1'') example_entries ?s)
     = [\<lparr>url = ascii ''http://localhost:8000/tasks/t1'',
         call_method = None, call_headers = [], call_body = None\<rparr>,
        \<lparr>url = ascii ''http://localhost:8000/tasks/t2'',
         call_method = None, call_headers = [], call_body = None\<rparr>]"
    by (simp add: poll_tick_calls example_entries_def getTask_def request_calls apiBaseUrl_def
        DEFAULT_BASE_def ascii_def)
  have e: "\<lparr>url = ascii ''http://localhost:8000/workspaces/w1/documents/tree'',
       call_method = None, call_headers = [], call_body = None\<rparr>
      \<notin> set (fst (poll_tick False polling_fetch failing_fetch None (ascii ''w1'')
             example_entries ?s))"
    unfolding c by (simp add: ascii_def)
  from a b c e show ?thesis by blast
qed

text \<open>
  The same cycle when React calls the updater inside the setter: the tree is requested.
\<close>

lemma poll_tick_eager_refresh:
  "\<lparr>url = apiBaseUrl None @ ascii ''/workspaces/'' @ ascii ''w1'' @ ascii ''/documents/tree'',
    call_method = None, call_headers = [], call_body = None\<rparr>
   \<in> set (fst (poll_tick True polling_fetch failing_fetch None (ascii ''w1'')
       example_entries (example_page\<lparr>activeIndexTasks := example_entries\<rparr>)))"
proof -
  let ?s = "example_page\<lparr>activeIndexTasks := example_entries\<rparr>"
  let ?e1 = "\<lparr>taskId = ascii ''t1'', status = ascii ''pending'',
               stage = Null, progress = Null, error = None\<rparr>"
  let ?done = "example_task\<lparr>t_status := ascii ''succeeded''\<rparr>"
  have d: "distinct (map fst example_entries)"
    by (simp add: example_entries_def ascii_def)
  note t = poll_tick_effect [OF d, where eager = True and fetch = polling_fetch and env = None
      and tfetch = failing_fetch and w = "ascii ''w1''" and s = ?s]
  have m1: "(ascii ''d1'', ?e1) \<in> set example_entries"
    by (simp add: example_entries_def)
  have g1: "snd (getTask polling_fetch None (taskId ?e1)) = Inr ?done"
    by (simp add: getTask_def request_def polling_fetch_def task_fetch_def apiBaseUrl_def
        DEFAULT_BASE_def ascii_def)
  have term1: "is_terminal (t_status ?done)"
    by (simp add: is_terminal_def)
  from t m1 g1 term1 show ?thesis
    by blast
qed

end
